theory Spec2Isabelle
  imports Main
begin

section \<open>The tender table view controller (static/script.js)\<close>

text \<open>
  The script wires a selection control, a JSON endpoint, a DataTables table and an export
  button. Strings are byte strings (the UTF-8 form of the JavaScript string). The DOM, jQuery
  and DataTables are collaborators of the script: the model keeps of them only what the script
  reads or writes (the cells appended to the header row, the rows handed to the table, the
  checkboxes found in the body, the \<open>disabled\<close> property of the button).
\<close>

subsection \<open>Built-ins of the language used by the script\<close>

text \<open>Decimal rendering of a non-negative integer, as a template literal or \<open>join\<close> prints it.\<close>

definition digit_char :: "nat \<Rightarrow> char" where
  "digit_char d = ''0123456789'' ! d"

function show_nat :: "nat \<Rightarrow> string" where
  "show_nat n = (if n < 10 then [digit_char n] else show_nat (n div 10) @ [digit_char (n mod 10)])"
  by pat_completeness auto
termination
  by (relation "measure (\<lambda>n. n)") auto

declare show_nat.simps [simp del]

text \<open>\<open>Array.prototype.join\<close> on an array of strings.\<close>

fun join :: "string \<Rightarrow> string list \<Rightarrow> string" where
  "join sep [] = []"
| "join sep [x] = x"
| "join sep (x # y # ys) = x @ sep @ join sep (y # ys)"

text \<open>
  \<open>encodeURIComponent\<close>: every byte is kept when it is an unreserved character
  (letters, digits and \<open>- _ . ! ~ * ' ( )\<close>) and is written \<open>%XX\<close> in upper-case
  hexadecimal otherwise.
\<close>

definition uri_unreserved :: "char list" where
  "uri_unreserved =
     ''ABCDEFGHIJKLMNOPQRSTUVWXYZabcdefghijklmnopqrstuvwxyz0123456789-_.!~*()'' @ [CHR 0x27]"

definition hex_digit :: "nat \<Rightarrow> char" where
  "hex_digit d = ''0123456789ABCDEF'' ! d"

definition encode_byte :: "char \<Rightarrow> string" where
  "encode_byte c =
     (if c \<in> set uri_unreserved then [c]
      else [CHR ''%'', hex_digit (of_char c div 16), hex_digit (of_char c mod 16)])"

definition encodeURIComponent :: "string \<Rightarrow> string" where
  "encodeURIComponent s = concat (map encode_byte s)"

subsection \<open>The export button (lines 53 to 66)\<close>

text \<open>
  A checkbox of the table body as the click handler sees it: the value of its
  \<open>data-index\<close> attribute and whether it is checked. The handler receives the checkboxes
  that are in the body at the time of the click, in document order, and the value of the
  selection control, a string.
\<close>

record checkbox =
  data_index :: nat
  is_checked :: bool

text \<open>The \<open>each\<close> loop over the checked boxes: every visit pushes the carried index.\<close>

definition push :: "'a list \<Rightarrow> 'a \<Rightarrow> 'a list" where
  "push xs x = xs @ [x]"

definition collect_checked :: "checkbox list \<Rightarrow> nat list" where
  "collect_checked boxes = foldl (\<lambda>checked b. push checked (data_index b)) [] (filter is_checked boxes)"

text \<open>The navigation target assigned to \<open>window.location.href\<close>.\<close>

definition export_url :: "string \<Rightarrow> checkbox list \<Rightarrow> string" where
  "export_url filial boxes =
     (let checked = collect_checked boxes;
          url = ''/export?filial='' @ encodeURIComponent filial
      in if length checked > 0
         then url @ ''&indices='' @ join '','' (map show_nat checked)
         else url)"

text \<open>
  Reading a URL the way the specification speaks of the export target: the path before
  \<open>?\<close>, and after it the parameters, separated by \<open>&\<close>, each a name and a value
  separated by the first \<open>=\<close>.
\<close>

fun split_on :: "char \<Rightarrow> string \<Rightarrow> string list" where
  "split_on c [] = [[]]"
| "split_on c (x # xs) =
     (if x = c then [] # split_on c xs
      else (case split_on c xs of [] \<Rightarrow> [[x]] | y # ys \<Rightarrow> (x # y) # ys))"

definition url_path :: "string \<Rightarrow> string" where
  "url_path url = takeWhile (\<lambda>c. c \<noteq> CHR ''?'') url"

definition name_value :: "string \<Rightarrow> string \<times> string" where
  "name_value kv = (takeWhile (\<lambda>c. c \<noteq> CHR ''='') kv, drop 1 (dropWhile (\<lambda>c. c \<noteq> CHR ''='') kv))"

definition query_params :: "string \<Rightarrow> (string \<times> string) list" where
  "query_params url = map name_value (split_on CHR ''&'' (drop 1 (dropWhile (\<lambda>c. c \<noteq> CHR ''?'') url)))"

subsection \<open>Records, objects and property reads\<close>

text \<open>
  A cell value of a record is a JSON value: a string, or any other JSON value, which the
  script passes on without looking into it. A record is the object \<open>JSON.parse\<close> built:
  its own properties in key-iteration order. The response is an object from filial names to
  record sequences, the contract of \<open>GET /data\<close>.
\<close>

datatype 'j json = JStr string | JOther 'j

type_synonym 'j row = "(string \<times> 'j json) list"

type_synonym 'j response = "(string \<times> 'j row list) list"

text \<open>
  A property read \<open>obj[key]\<close> on such an object finds an own property first and
  falls back on \<open>Object.prototype\<close>, whose members are listed here with the value of
  their \<open>length\<close> property (the \<open>__proto__\<close> accessor yields the prototype object,
  which has none). Only a name that is neither own nor inherited reads as \<open>undefined\<close>.
\<close>

definition object_prototype :: "(string \<times> nat option) list" where
  "object_prototype =
     [(''constructor'', Some 1), (''hasOwnProperty'', Some 1), (''isPrototypeOf'', Some 1),
      (''propertyIsEnumerable'', Some 1), (''toLocaleString'', Some 0), (''toString'', Some 0),
      (''valueOf'', Some 0), (''__defineGetter__'', Some 2), (''__defineSetter__'', Some 2),
      (''__lookupGetter__'', Some 1), (''__lookupSetter__'', Some 1), (''__proto__'', None)]"

datatype 'a property = Undefined | Own 'a | Inherited string

definition get_prop :: "(string \<times> 'a) list \<Rightarrow> string \<Rightarrow> 'a property" where
  "get_prop obj key =
     (case map_of obj key of
        Some v \<Rightarrow> Own v
      | None \<Rightarrow> if key \<in> fst ` set object_prototype then Inherited key else Undefined)"

definition object_keys :: "(string \<times> 'a) list \<Rightarrow> string list" where
  "object_keys obj = map fst obj"

datatype js_error = TypeError

subsection \<open>Header cells and the data set (lines 21 to 31)\<close>

definition th :: "string \<Rightarrow> string" where
  "th col = ''<th>'' @ col @ ''</th>''"

definition checkbox_html :: "nat \<Rightarrow> string" where
  \<open>checkbox_html idx =
     ''<input type="checkbox" class="row-select" data-index="'' @ show_nat idx @ ''" />''\<close>

text \<open>
  A cell of the data set is a JSON value (the markup of the checkbox and the empty string
  are strings) or, when the read of the column fell through to the prototype, the inherited
  member.
\<close>

datatype 'j cell = Value "'j json" | Member string

definition cell_of :: "'j row \<Rightarrow> string \<Rightarrow> 'j cell" where
  "cell_of row col =
     (case get_prop row col of
        Undefined \<Rightarrow> Value (JStr [])
      | Own v \<Rightarrow> Value v
      | Inherited m \<Rightarrow> Member m)"

definition dataSet :: "string list \<Rightarrow> 'j row list \<Rightarrow> 'j cell list list" where
  "dataSet columns rows =
     map (\<lambda>(idx, row). Value (JStr (checkbox_html idx)) # map (cell_of row) columns)
       (enumerate 0 rows)"



definition is_digit :: "char \<Rightarrow> bool" where
  "is_digit c = (c \<in> set ''0123456789'')"




subsection \<open>The table library and the page\<close>

datatype direction = Asc | Desc

record columnDef =
  orderable :: bool
  targets :: nat

record 'j config =
  data :: "'j cell list list"
  columns :: "string list"
  columnDefs :: "columnDef list"
  order :: "(nat \<times> direction) list"
  language_url :: string

record 'j dt_instance =
  inst_id :: nat
  settings :: "'j config"

text \<open>What the script does to its collaborators, in the order it does it.\<close>

datatype effect =
    Destroy nat
  | EmptyBody
  | EmptyHead
  | SetDisabled bool
  | GetJSON string
  | AppendHead string
  | DataTableCall
  | Uncaught js_error

text \<open>
  The state of the page: the script's variable \<open>dataTable\<close>; the DataTables instance
  attached to the table element, if any (a table is rendered when there is one); the number
  of instances created so far; the cells of the header row; the rows of the body (those the
  table was given: in which order and on which page it draws them is the library's affair);
  the \<open>disabled\<close> property of the export button; the filials of the requests that are
  still to be answered; and the effects so far.
\<close>

record 'j state =
  dataTable :: "'j dt_instance option"
  attached :: "'j dt_instance option"
  created :: nat
  thead :: "string list"
  tbody :: "'j cell list list"
  export_disabled :: bool
  pending :: "string list"
  trace :: "effect list"

definition emit :: "effect \<Rightarrow> 'j state \<Rightarrow> 'j state" where
  "emit e s = s\<lparr>trace := trace s @ [e]\<rparr>"

text \<open>
  DataTables is not part of the repository. \<open>destroy\<close> detaches the instance from the
  table when it is the attached one and changes nothing otherwise. The constructor attaches
  a new instance showing the rows it was given; on a table that already has an instance it
  refuses to initialise again and hands back that instance. Both calls are taken to return.
\<close>

definition destroy :: "'j dt_instance \<Rightarrow> 'j state \<Rightarrow> 'j state" where
  "destroy i s =
     emit (Destroy (inst_id i))
       (if attached s = Some i then s\<lparr>attached := None\<rparr> else s)"

definition DataTable :: "'j config \<Rightarrow> 'j state \<Rightarrow> 'j dt_instance \<times> 'j state" where
  "DataTable cfg s =
     (case attached s of
        Some i \<Rightarrow> (i, emit DataTableCall s)
      | None \<Rightarrow>
          (let i = \<lparr>inst_id = created s, settings = cfg\<rparr>
           in (i, emit DataTableCall
                    (s\<lparr>attached := Some i, created := Suc (created s), tbody := data cfg\<rparr>))))"

definition empty_tbody :: "'j state \<Rightarrow> 'j state" where
  "empty_tbody s = emit EmptyBody (s\<lparr>tbody := []\<rparr>)"

definition empty_thead :: "'j state \<Rightarrow> 'j state" where
  "empty_thead s = emit EmptyHead (s\<lparr>thead := []\<rparr>)"

definition append_thead :: "string \<Rightarrow> 'j state \<Rightarrow> 'j state" where
  "append_thead html s = emit (AppendHead html) (s\<lparr>thead := thead s @ [html]\<rparr>)"

definition set_disabled :: "bool \<Rightarrow> 'j state \<Rightarrow> 'j state" where
  "set_disabled b s = emit (SetDisabled b) (s\<lparr>export_disabled := b\<rparr>)"

definition getJSON :: "string \<Rightarrow> string \<Rightarrow> 'j state \<Rightarrow> 'j state" where
  "getJSON url filial s = emit (GetJSON url) (s\<lparr>pending := pending s @ [filial]\<rparr>)"

subsection \<open>fetchAndRender (lines 6 to 44)\<close>

text \<open>The synchronous part: lines 8 to 14, up to the request being issued.\<close>

definition teardown :: "'j state \<Rightarrow> 'j state" where
  "teardown s =
     (case dataTable s of
        Some i \<Rightarrow> empty_thead (empty_tbody (destroy i s))
      | None \<Rightarrow> s)"

definition data_url :: "string \<Rightarrow> string" where
  "data_url filial = ''/data?filial='' @ encodeURIComponent filial"

definition fetchAndRender :: "string \<Rightarrow> 'j state \<Rightarrow> 'j state" where
  "fetchAndRender filial s = getJSON (data_url filial) filial (set_disabled True (teardown s))"

text \<open>
  The callback, lines 15 to 42. The value of \<open>data[filial] || []\<close> is a record sequence
  or, when the name is not an own key of the response and names a prototype member, that
  member (a function or an object, hence truthy).
\<close>

datatype 'j rows_value = Rows "'j row list" | ProtoMember string

definition rows_or_empty :: "'j row list property \<Rightarrow> 'j rows_value" where
  "rows_or_empty v =
     (case v of Undefined \<Rightarrow> Rows [] | Own rs \<Rightarrow> Rows rs | Inherited m \<Rightarrow> ProtoMember m)"

text \<open>\<open>rows.length\<close> and \<open>rows[0]\<close>; \<open>None\<close> stands for \<open>undefined\<close>.\<close>

definition js_length :: "'j rows_value \<Rightarrow> nat option" where
  "js_length v =
     (case v of
        Rows rs \<Rightarrow> Some (length rs)
      | ProtoMember m \<Rightarrow> (case map_of object_prototype m of Some l \<Rightarrow> l | None \<Rightarrow> None))"

definition js_first :: "'j rows_value \<Rightarrow> 'j row option" where
  "js_first v =
     (case v of
        Rows rs \<Rightarrow> (case rs of [] \<Rightarrow> None | r # _ \<Rightarrow> Some r)
      | ProtoMember m \<Rightarrow> None)"

definition elements :: "'j rows_value \<Rightarrow> 'j row list" where
  "elements v = (case v of Rows rs \<Rightarrow> rs | ProtoMember m \<Rightarrow> [])"

definition table_config :: "string list \<Rightarrow> 'j cell list list \<Rightarrow> 'j config" where
  "table_config cols dataset =
     \<lparr>data = dataset,
      columns = [] # cols,
      columnDefs = [\<lparr>orderable = False, targets = 0\<rparr>],
      order = [(1, Asc)],
      language_url = ''https://cdn.datatables.net/plug-ins/1.13.6/i18n/ru.json''\<rparr>"

definition render :: "string list \<Rightarrow> 'j row list \<Rightarrow> 'j state \<Rightarrow> 'j state" where
  "render cols rows s =
     (let s1 = append_thead ''<th></th>'' s;
          s2 = foldl (\<lambda>s col. append_thead (th col) s) s1 cols;
          (i, s3) = DataTable (table_config cols (dataSet cols rows)) s2;
          s4 = s3\<lparr>dataTable := Some i\<rparr>
      in set_disabled False s4)"

text \<open>
  \<open>Object.keys(undefined)\<close> throws a TypeError: that is where the callback ends when
  \<open>rows\<close> is a prototype member whose \<open>length\<close> is not 0. Nothing has been changed
  by then.
\<close>

definition on_response :: "string \<Rightarrow> 'j response \<Rightarrow> 'j state \<Rightarrow> js_error + 'j state" where
  "on_response filial response s =
     (let rows = rows_or_empty (get_prop response filial)
      in if js_length rows = Some 0 then Inr s
         else (case js_first rows of
                 None \<Rightarrow> Inl TypeError
               | Some first \<Rightarrow> Inr (render (object_keys first) (elements rows) s)))"

subsection \<open>The page as a machine of events\<close>

text \<open>
  At load the header row and the body are empty (the component owns them) and the button is
  as the markup has it. The script fetches at once when the selection control has a value
  that is truthy.
\<close>

definition page_loaded :: "bool \<Rightarrow> 'j state" where
  "page_loaded disabled0 =
     \<lparr>dataTable = None, attached = None, created = 0, thead = [], tbody = [],
      export_disabled = disabled0, pending = [], trace = []\<rparr>"

definition initialize :: "bool \<Rightarrow> string option \<Rightarrow> 'j state" where
  "initialize disabled0 initialFilial =
     (case initialFilial of
        None \<Rightarrow> page_loaded disabled0
      | Some f \<Rightarrow> if f \<noteq> [] then fetchAndRender f (page_loaded disabled0) else page_loaded disabled0)"

text \<open>
  Afterwards the event loop runs one handler at a time: a change of the selection, or the
  answer to a request that is still pending, which runs the callback that request was issued
  with. An exception leaves the callback and is reported; the page lives on.
\<close>

datatype 'j event = Change string | Response string "'j response"

definition step :: "'j event \<Rightarrow> 'j state \<Rightarrow> 'j state" where
  "step e s =
     (case e of
        Change f \<Rightarrow> fetchAndRender f s
      | Response f response \<Rightarrow>
          if f \<in> set (pending s)
          then (let s' = s\<lparr>pending := remove1 f (pending s)\<rparr>
                in case on_response f response s' of
                     Inl err \<Rightarrow> emit (Uncaught err) s'
                   | Inr s'' \<Rightarrow> s'')
          else s)"

definition run :: "'j event list \<Rightarrow> 'j state \<Rightarrow> 'j state" where
  "run es s = foldl (\<lambda>s e. step e s) s es"


text \<open>
  What every state of the page satisfies: while the variable \<open>dataTable\<close> is still
  \<open>null\<close> nothing has been drawn, and an attached instance is the one the variable holds.
\<close>

definition page_inv :: "'j state \<Rightarrow> bool" where
  "page_inv s =
     ((dataTable s = None \<longrightarrow> thead s = [] \<and> tbody s = [] \<and> attached s = None) \<and>
      (attached s \<noteq> None \<longrightarrow> dataTable s = attached s))"


subsection \<open>Responses used as examples\<close>

text \<open>
  The response of the specification's scenario for filial \<open>East\<close>, and one whose first
  record has a column named \<open>constructor\<close> that the second record lacks.
\<close>

definition east :: "unit response" where
  "east = [(''East'', [[(''id'', JStr ''1''), (''amount'', JStr ''50'')], [(''id'', JStr ''2'')]])]"

definition tenders :: "unit response" where
  "tenders = [(''East'', [[(''id'', JStr ''1''), (''constructor'', JStr ''Acme'')], [(''id'', JStr ''2'')]])]"

text \<open>
  The instance created when the \<open>East\<close> response is the first to be rendered, and a
  response with no rows for \<open>South\<close>.
\<close>

definition east_table :: "unit dt_instance" where
  "east_table =
     \<lparr>inst_id = 0,
      settings = table_config [''id'', ''amount'']
        (dataSet [''id'', ''amount'']
           [[(''id'', JStr ''1''), (''amount'', JStr ''50'')], [(''id'', JStr ''2'')]])\<rparr>"

definition south_empty :: "unit response" where
  "south_empty = [(''South'', [])]"

section \<open>Properties\<close>

subsection \<open>The export target\<close>

lemma foldl_push: "foldl (\<lambda>acc b. push acc (f b)) acc xs = acc @ map f xs"
  by (induction xs arbitrary: acc) (simp_all add: push_def)

lemma collect_checked_eq: "collect_checked boxes = map data_index (filter is_checked boxes)"
  by (simp add: collect_checked_def foldl_push)

lemma hex_digit_in: "d < 16 \<Longrightarrow> hex_digit d \<in> set ''0123456789ABCDEF''"
  unfolding hex_digit_def by (rule nth_mem) simp

lemma of_char_div_16: "(of_char c :: nat) div 16 < 16"
proof -
  have "(of_char c :: nat) < 16 * 16" by simp
  then show ?thesis by (rule less_mult_imp_div_less)
qed

lemma encode_byte_chars:
  "set (encode_byte c) \<subseteq> set uri_unreserved \<union> set ''%0123456789ABCDEF''"
proof (cases "c \<in> set uri_unreserved")
  case True
  then show ?thesis by (simp add: encode_byte_def)
next
  case False
  have "hex_digit (of_char c div 16) \<in> set ''0123456789ABCDEF''"
    by (rule hex_digit_in) (rule of_char_div_16)
  moreover have "hex_digit (of_char c mod 16) \<in> set ''0123456789ABCDEF''"
    by (rule hex_digit_in) simp
  ultimately show ?thesis using False by (auto simp add: encode_byte_def)
qed

lemma encodeURIComponent_chars:
  "set (encodeURIComponent s) \<subseteq> set uri_unreserved \<union> set ''%0123456789ABCDEF''"
  unfolding encodeURIComponent_def using encode_byte_chars by fastforce

lemma encodeURIComponent_no_delim:
  "CHR ''&'' \<notin> set (encodeURIComponent s)" "CHR ''='' \<notin> set (encodeURIComponent s)"
  "CHR ''?'' \<notin> set (encodeURIComponent s)"
  using encodeURIComponent_chars [of s] by (auto simp add: uri_unreserved_def)

lemma digit_char_in: "d < 10 \<Longrightarrow> digit_char d \<in> set ''0123456789''"
  unfolding digit_char_def by (rule nth_mem) simp

lemma show_nat_chars: "set (show_nat n) \<subseteq> set ''0123456789''"
proof (induction n rule: show_nat.induct)
  case (1 n)
  show ?case
  proof (cases "n < 10")
    case True
    then show ?thesis using digit_char_in [of n] by (subst show_nat.simps) simp
  next
    case False
    have "digit_char (n mod 10) \<in> set ''0123456789''" by (rule digit_char_in) simp
    with False 1 show ?thesis by (subst show_nat.simps) simp
  qed
qed

lemma join_chars: "set (join sep xs) \<subseteq> set sep \<union> \<Union> (set ` set xs)"
  by (induction sep xs rule: join.induct) auto

lemma indices_no_delim:
  "CHR ''&'' \<notin> set (join '','' (map show_nat ns))" "CHR ''='' \<notin> set (join '','' (map show_nat ns))"
  using join_chars [of "'',''" "map show_nat ns"] show_nat_chars by fastforce+

lemma split_on_none: "c \<notin> set xs \<Longrightarrow> split_on c xs = [xs]"
  by (induction xs) auto

lemma split_on_append: "c \<notin> set xs \<Longrightarrow> split_on c (xs @ c # ys) = xs # split_on c ys"
  by (induction xs) auto

lemma name_value_eq: "CHR ''='' \<notin> set k \<Longrightarrow> name_value (k @ CHR ''='' # v) = (k, v)"
  unfolding name_value_def by (induction k) auto


text \<open>
  Claim C1. For every click on the export button, the navigation target has the path
  \<open>/export\<close> and its first parameter is \<open>filial\<close> with the URL-encoded filial as its
  value. When at least one checkbox is checked there is exactly one more parameter,
  \<open>indices\<close>, whose value is the comma-joined list of the carried indices of the checked
  boxes in the document order of the boxes; when none is checked there is no other parameter.
\<close>

theorem export_url_parameters:
  "url_path (export_url filial boxes) = ''/export'' \<and>
   query_params (export_url filial boxes) =
     (''filial'', encodeURIComponent filial) #
     (if filter is_checked boxes = [] then []
      else [(''indices'', join '','' (map show_nat (map data_index (filter is_checked boxes))))])"
proof -
  let ?enc = "encodeURIComponent filial"
  let ?ns = "map data_index (filter is_checked boxes)"
  let ?ind = "join '','' (map show_nat ?ns)"
  have amp: "CHR ''&'' \<notin> set (''filial='' @ ?enc)"
    using encodeURIComponent_no_delim(1) [of filial] by simp
  have nv1: "name_value (''filial'' @ CHR ''='' # ?enc) = (''filial'', ?enc)"
    by (rule name_value_eq) simp
  have nv2: "name_value (''indices'' @ CHR ''='' # ?ind) = (''indices'', ?ind)"
    by (rule name_value_eq) simp
  show ?thesis
  proof (cases "filter is_checked boxes = []")
    case True
    then have url: "export_url filial boxes = ''/export?filial='' @ ?enc"
      by (simp add: export_url_def collect_checked_eq)
    have "split_on CHR ''&'' (''filial='' @ ?enc) = [''filial='' @ ?enc]"
      using amp by (rule split_on_none)
    then show ?thesis using True nv1 by (simp add: url url_path_def query_params_def)
  next
    case False
    then have url: "export_url filial boxes = ''/export?filial='' @ ?enc @ ''&indices='' @ ?ind"
      by (simp add: export_url_def collect_checked_eq)
    have "split_on CHR ''&'' ((''filial='' @ ?enc) @ CHR ''&'' # (''indices='' @ ?ind))
            = (''filial='' @ ?enc) # split_on CHR ''&'' (''indices='' @ ?ind)"
      using amp by (rule split_on_append)
    moreover have "split_on CHR ''&'' (''indices='' @ ?ind) = [''indices='' @ ?ind]"
      by (rule split_on_none) (use indices_no_delim(1) [of ?ns] in simp)
    ultimately show ?thesis using False nv1 nv2 by (simp add: url url_path_def query_params_def)
  qed
qed

text \<open>The two targets of the specification's scenario, filial \<open>North\<close>.\<close>

theorem export_url_parameters_witness:
  "export_url ''North'' [] = ''/export?filial=North'' \<and>
   query_params ''/export?filial=North'' = [(''filial'', ''North'')] \<and>
   export_url ''North'' [\<lparr>data_index = 2, is_checked = True\<rparr>, \<lparr>data_index = 1, is_checked = False\<rparr>,
      \<lparr>data_index = 0, is_checked = True\<rparr>] = ''/export?filial=North&indices=2,0'' \<and>
   query_params ''/export?filial=North&indices=2,0'' = [(''filial'', ''North''), (''indices'', ''2,0'')]"
proof -
  let ?boxes = "[\<lparr>data_index = 2, is_checked = True\<rparr>, \<lparr>data_index = 1, is_checked = False\<rparr>,
      \<lparr>data_index = 0, is_checked = True\<rparr>]"
  have e0: "export_url ''North'' [] = ''/export?filial=North''"
    by code_simp
  have e1: "export_url ''North'' ?boxes = ''/export?filial=North&indices=2,0''"
    by code_simp
  have n: "encodeURIComponent ''North'' = ''North''"
    by code_simp
  have j: "show_nat 2 = ''2''" "show_nat 0 = ''0''"
    by code_simp+
  have "query_params (export_url ''North'' []) = [(''filial'', ''North'')]"
    using export_url_parameters [of "''North''" "[]"] by (simp add: n)
  then have q0: "query_params ''/export?filial=North'' = [(''filial'', ''North'')]"
    by (simp only: e0)
  have "query_params (export_url ''North'' ?boxes) = [(''filial'', ''North''), (''indices'', ''2,0'')]"
    using export_url_parameters [of "''North''" ?boxes] by (simp add: n j)
  then have q1: "query_params ''/export?filial=North&indices=2,0'' = [(''filial'', ''North''), (''indices'', ''2,0'')]"
    by (simp only: e1)
  from e0 q0 e1 q1 show ?thesis by blast
qed


subsection \<open>What each handler does to the page\<close>

lemma th_blank: "th [] = ''<th></th>''"
  by (simp add: th_def)

lemma table_config_fields:
  "data (table_config cols ds) = ds"
  "columns (table_config cols ds) = [] # cols"
  "columnDefs (table_config cols ds) = [\<lparr>orderable = False, targets = 0\<rparr>]"
  "order (table_config cols ds) = [(1, Asc)]"
  by (simp_all add: table_config_def)

lemma foldl_append_thead:
  "foldl (\<lambda>s col. append_thead (th col) s) s cols =
     s\<lparr>thead := thead s @ map th cols, trace := trace s @ map (\<lambda>c. AppendHead (th c)) cols\<rparr>"
  by (induction cols arbitrary: s) (simp_all add: append_thead_def emit_def)

lemma render_fresh:
  assumes "attached s = None"
  shows "render cols rows s =
     s\<lparr>dataTable := Some \<lparr>inst_id = created s, settings = table_config cols (dataSet cols rows)\<rparr>,
       attached := Some \<lparr>inst_id = created s, settings = table_config cols (dataSet cols rows)\<rparr>,
       created := Suc (created s),
       thead := thead s @ th [] # map th cols,
       tbody := dataSet cols rows,
       export_disabled := False,
       trace := trace s @ AppendHead (th []) # map (\<lambda>c. AppendHead (th c)) cols
                  @ [DataTableCall, SetDisabled False]\<rparr>"
  unfolding render_def foldl_append_thead using assms
  by (simp add: DataTable_def append_thead_def emit_def set_disabled_def th_blank Let_def
      table_config_fields(1))

lemma render_attached:
  assumes "attached s = Some i"
  shows "render cols rows s =
     s\<lparr>dataTable := Some i,
       thead := thead s @ th [] # map th cols,
       export_disabled := False,
       trace := trace s @ AppendHead (th []) # map (\<lambda>c. AppendHead (th c)) cols
                  @ [DataTableCall, SetDisabled False]\<rparr>"
  unfolding render_def foldl_append_thead using assms
  by (simp add: DataTable_def append_thead_def emit_def set_disabled_def th_blank Let_def
      table_config_fields(1))

lemma teardown_some:
  assumes "dataTable s = Some i"
  shows "teardown s =
     s\<lparr>attached := (if attached s = Some i then None else attached s),
       thead := [], tbody := [],
       trace := trace s @ [Destroy (inst_id i), EmptyBody, EmptyHead]\<rparr>"
  using assms by (simp add: teardown_def destroy_def empty_tbody_def empty_thead_def emit_def)

lemma teardown_none: "dataTable s = None \<Longrightarrow> teardown s = s"
  by (simp add: teardown_def)

lemma fetchAndRender_eq:
  "fetchAndRender f s =
     (teardown s)\<lparr>export_disabled := True, pending := pending (teardown s) @ [f],
        trace := trace (teardown s) @ [SetDisabled True, GetJSON (data_url f)]\<rparr>"
  by (simp add: fetchAndRender_def getJSON_def set_disabled_def emit_def)

lemma on_response_rows:
  assumes "get_prop response filial = Own (first # rest)"
  shows "on_response filial response s = Inr (render (object_keys first) (first # rest) s)"
  using assms
  by (simp add: on_response_def rows_or_empty_def js_length_def js_first_def elements_def)

lemma on_response_no_rows:
  assumes "get_prop response filial = Undefined \<or> get_prop response filial = Own []"
  shows "on_response filial response s = Inr s"
  using assms by (auto simp add: on_response_def rows_or_empty_def js_length_def)


lemma run_append: "run (es @ es') s = run es' (run es s)"
  by (simp add: run_def)

lemma run_Nil: "run [] s = s"
  by (simp add: run_def)

lemma run_Cons: "run (e # es) s = run es (step e s)"
  by (simp add: run_def)

lemma page_inv_loaded: "page_inv (page_loaded d)"
  by (simp add: page_inv_def page_loaded_def)

lemma page_inv_render:
  assumes "page_inv s"
  shows "page_inv (render cols rows s)"
proof (cases "attached s")
  case None
  then show ?thesis by (simp add: render_fresh page_inv_def)
next
  case (Some i)
  then show ?thesis by (simp add: render_attached page_inv_def)
qed



lemma page_inv_attached:
  assumes "page_inv s" and "dataTable s = Some i"
  shows "attached s = None \<or> attached s = Some i"
  using assms unfolding page_inv_def by (cases "attached s") simp_all

lemma teardown_inv:
  assumes "page_inv s" and "dataTable s = Some i"
  shows "teardown s =
     s\<lparr>attached := None, thead := [], tbody := [],
       trace := trace s @ [Destroy (inst_id i), EmptyBody, EmptyHead]\<rparr>"
proof -
  from page_inv_attached [OF assms] show ?thesis
  proof
    assume "attached s = None"
    then show ?thesis by (simp add: teardown_some [OF assms(2)])
  next
    assume "attached s = Some i"
    then show ?thesis by (simp add: teardown_some [OF assms(2)])
  qed
qed

lemma page_inv_fetchAndRender:
  assumes "page_inv s"
  shows "page_inv (fetchAndRender f s)"
proof (cases "dataTable s")
  case None
  with assms show ?thesis
    unfolding fetchAndRender_eq by (simp add: teardown_none page_inv_def)
next
  case (Some i)
  show ?thesis
    unfolding fetchAndRender_eq teardown_inv [OF assms Some] using Some
    by (simp add: page_inv_def)
qed


lemma page_inv_pending: "page_inv (s\<lparr>pending := p\<rparr>) = page_inv s"
  by (simp add: page_inv_def)

lemma page_inv_emit: "page_inv (emit e s) = page_inv s"
  by (simp add: page_inv_def emit_def)

lemma on_response_cases:
  "on_response f r s = Inl TypeError \<or> on_response f r s = Inr s \<or>
   (\<exists>cols rows. on_response f r s = Inr (render cols rows s))"
  by (auto simp add: on_response_def Let_def split: option.splits)

lemma page_inv_step:
  assumes "page_inv s"
  shows "page_inv (step e s)"
proof (cases e)
  case (Change f)
  with assms show ?thesis by (simp add: step_def page_inv_fetchAndRender)
next
  case (Response f r)
  let ?s' = "s\<lparr>pending := remove1 f (pending s)\<rparr>"
  have inv': "page_inv ?s'" using assms by (simp add: page_inv_pending)
  show ?thesis
  proof (cases "f \<in> set (pending s)")
    case False
    with Response assms show ?thesis by (simp add: step_def)
  next
    case True
    from on_response_cases [of f r ?s'] show ?thesis
    proof (elim disjE exE)
      assume "on_response f r ?s' = Inl TypeError"
      with True Response inv' show ?thesis by (simp add: step_def page_inv_emit)
    next
      assume "on_response f r ?s' = Inr ?s'"
      with True Response inv' show ?thesis by (simp add: step_def)
    next
      fix cols rows assume "on_response f r ?s' = Inr (render cols rows ?s')"
      with True Response page_inv_render [OF inv'] show ?thesis by (simp add: step_def)
    qed
  qed
qed

lemma page_inv_run:
  assumes "page_inv s"
  shows "page_inv (run es s)"
  using assms by (induction es arbitrary: s) (simp_all add: run_Nil run_Cons page_inv_step)

lemma page_inv_initialize: "page_inv (initialize d f0)"
  by (simp add: initialize_def page_inv_loaded page_inv_fetchAndRender split: option.splits)

lemma page_inv_reachable: "page_inv (run es (initialize d f0))"
  by (rule page_inv_run) (rule page_inv_initialize)

lemma change_clears:
  assumes "page_inv s"
  shows "attached (fetchAndRender f s) = None \<and> thead (fetchAndRender f s) = [] \<and>
         tbody (fetchAndRender f s) = [] \<and> export_disabled (fetchAndRender f s) \<and>
         f \<in> set (pending (fetchAndRender f s)) \<and> created (fetchAndRender f s) = created s"
proof (cases "dataTable s")
  case None
  with assms show ?thesis
    unfolding fetchAndRender_eq by (simp add: teardown_none page_inv_def)
next
  case (Some i)
  show ?thesis
    unfolding fetchAndRender_eq teardown_inv [OF assms Some] by simp
qed

lemma cycle_renders:
  assumes inv: "page_inv s"
    and rows: "get_prop response f = Own (first # rest)"
  defines "s' \<equiv> step (Response f response) (step (Change f) s)"
  shows "thead s' = th [] # map th (object_keys first)"
    and "tbody s' = dataSet (object_keys first) (first # rest)"
    and "attached s' = Some \<lparr>inst_id = created s,
           settings = table_config (object_keys first) (dataSet (object_keys first) (first # rest))\<rparr>"
    and "dataTable s' = attached s'"
    and "\<not> export_disabled s'"
proof -
  let ?s1 = "fetchAndRender f s"
  let ?s2 = "?s1\<lparr>pending := remove1 f (pending ?s1)\<rparr>"
  note c = change_clears [OF inv, of f]
  have a: "attached ?s2 = None" using c by simp
  have "s' = render (object_keys first) (first # rest) ?s2"
    using c rows by (simp add: s'_def step_def on_response_rows Let_def)
  then have eq: "s' = ?s2\<lparr>dataTable := Some \<lparr>inst_id = created ?s2,
          settings = table_config (object_keys first) (dataSet (object_keys first) (first # rest))\<rparr>,
       attached := Some \<lparr>inst_id = created ?s2,
          settings = table_config (object_keys first) (dataSet (object_keys first) (first # rest))\<rparr>,
       created := Suc (created ?s2),
       thead := thead ?s2 @ th [] # map th (object_keys first),
       tbody := dataSet (object_keys first) (first # rest),
       export_disabled := False,
       trace := trace ?s2 @ AppendHead (th []) # map (\<lambda>c. AppendHead (th c)) (object_keys first)
                  @ [DataTableCall, SetDisabled False]\<rparr>"
    by (simp only: render_fresh [OF a])
  show "thead s' = th [] # map th (object_keys first)" using c by (simp add: eq)
  show "tbody s' = dataSet (object_keys first) (first # rest)" by (simp add: eq)
  show "attached s' = Some \<lparr>inst_id = created s,
           settings = table_config (object_keys first) (dataSet (object_keys first) (first # rest))\<rparr>"
    using c by (simp add: eq)
  show "dataTable s' = attached s'" by (simp add: eq)
  show "\<not> export_disabled s'" by (simp add: eq)
qed

lemma on_response_outcomes:
  "on_response f r s = Inl TypeError \<or> on_response f r s = Inr s \<or>
   (\<exists>first rest. get_prop r f = Own (first # rest) \<and>
      on_response f r s = Inr (render (object_keys first) (first # rest) s))"
proof (cases "get_prop r f")
  case Undefined
  then show ?thesis by (simp add: on_response_no_rows)
next
  case (Own rows)
  then show ?thesis
    by (cases rows) (simp_all add: on_response_no_rows on_response_rows)
next
  case (Inherited m)
  then show ?thesis
    by (simp add: on_response_def rows_or_empty_def js_first_def Let_def)
qed

lemma on_response_not_rendering:
  assumes "\<not> (\<exists>first rest. get_prop r f = Own (first # rest))"
  shows "on_response f r s = Inl TypeError \<or> on_response f r s = Inr s"
  using on_response_outcomes [of f r s] assms by blast









subsection \<open>The data set and the index a checkbox carries\<close>

lemma enumerate_nth_dataSet:
  assumes "i < length rows"
  shows "dataSet cols rows ! i = Value (JStr (checkbox_html i)) # map (cell_of (rows ! i)) cols"
  using assms by (simp add: dataSet_def nth_enumerate_eq)




lemma is_digit_digit_char: "d < 10 \<Longrightarrow> is_digit (digit_char d)"
  using digit_char_in [of d] by (simp add: is_digit_def)











subsection \<open>The rendered table\<close>

lemma reachable_cycle:
  "run (es @ [Change f, Response f r]) s0 = step (Response f r) (step (Change f) (run es s0))"
  by (simp add: run_append run_Cons run_Nil)


lemma east_rows:
  "get_prop east ''East'' = Own ([(''id'', JStr ''1''), (''amount'', JStr ''50'')] # [[(''id'', JStr ''2'')]])"
  by (simp add: east_def get_prop_def)








text \<open>
  The cell of a column: empty when the row lacks it and the prototype does not have the name,
  the value unchanged when the row has it, the inherited member otherwise.
\<close>

lemma cell_of_absent:
  assumes "col \<notin> set (object_keys row)" and "col \<notin> fst ` set object_prototype"
  shows "cell_of row col = Value (JStr [])"
proof -
  from assms(1) have "map_of row col = None"
    by (simp add: object_keys_def map_of_eq_None_iff)
  with assms(2) show ?thesis by (simp add: cell_of_def get_prop_def)
qed

lemma cell_of_present:
  assumes "map_of row col = Some v"
  shows "cell_of row col = Value v"
  using assms by (simp add: cell_of_def get_prop_def)

lemma cell_of_inherited:
  assumes "col \<notin> set (object_keys row)" and "col \<in> fst ` set object_prototype"
  shows "cell_of row col = Member col"
proof -
  from assms(1) have "map_of row col = None"
    by (simp add: object_keys_def map_of_eq_None_iff)
  with assms(2) show ?thesis by (simp add: cell_of_def get_prop_def)
qed

lemma tenders_rows:
  "get_prop tenders ''East'' =
     Own ([(''id'', JStr ''1''), (''constructor'', JStr ''Acme'')] # [[(''id'', JStr ''2'')]])"
  by (simp add: tenders_def get_prop_def)

text \<open>
  Claim C6 says that a column of the first record that a row lacks is rendered as the empty
  string. The test \<open>row[col] === undefined\<close> misses a column name that
  \<open>Object.prototype\<close> also has: for the records \<open>{"id":"1","constructor":"Acme"}\<close>
  and \<open>{"id":"2"}\<close> the second row lacks \<open>constructor\<close>, and its cell is the
  inherited member, not the empty string.
\<close>

theorem absent_column_reads_prototype:
  "''constructor'' \<notin> set (object_keys [(''id'', JStr ''2'' :: unit json)]) \<and>
   tbody (run [Change ''East'', Response ''East'' tenders] (initialize True None)) ! 1
     = [Value (JStr (checkbox_html 1)), Value (JStr ''2''), Member ''constructor''] \<and>
   Member ''constructor'' \<noteq> (Value (JStr []) :: unit cell)"
proof -
  have inv: "page_inv (initialize True None :: unit state)" by (rule page_inv_initialize)
  have "tbody (run [Change ''East'', Response ''East'' tenders] (initialize True None))
      = dataSet (object_keys [(''id'', JStr ''1''), (''constructor'', JStr ''Acme'' :: unit json)])
          ([(''id'', JStr ''1''), (''constructor'', JStr ''Acme'')] # [[(''id'', JStr ''2'')]])"
    using cycle_renders(2) [OF inv tenders_rows] by (simp add: run_Cons run_Nil)
  moreover have "dataSet (object_keys [(''id'', JStr ''1''), (''constructor'', JStr ''Acme'' :: unit json)])
          ([(''id'', JStr ''1''), (''constructor'', JStr ''Acme'')] # [[(''id'', JStr ''2'')]]) ! 1
     = [Value (JStr (checkbox_html 1)), Value (JStr ''2''), Member ''constructor'']"
    by (simp add: enumerate_nth_dataSet object_keys_def cell_of_def get_prop_def object_prototype_def)
  ultimately show ?thesis by (simp add: object_keys_def)
qed

text \<open>
  Claim C3 says that a response without the key of the requested filial is treated as zero
  rows and that no error path is taken. For the filial \<open>constructor\<close> and the response
  \<open>{}\<close> the read \<open>data[filial]\<close> yields the inherited member, whose length is 1, and
  the callback ends in a TypeError.
\<close>

theorem absent_prototype_key_throws:
  "map_of ([] :: unit response) ''constructor'' = None \<and>
   on_response ''constructor'' ([] :: unit response) s = Inl TypeError \<and>
   trace (run [Response ''constructor'' ([] :: unit response)] (initialize True (Some ''constructor'')))
     = [SetDisabled True, GetJSON ''/data?filial=constructor'', Uncaught TypeError]"
proof -
  have t: "on_response ''constructor'' ([] :: unit response) s = Inl TypeError" for s :: "unit state"
    by (simp add: on_response_def get_prop_def rows_or_empty_def js_length_def js_first_def
        object_prototype_def)
  have u: "encodeURIComponent ''constructor'' = ''constructor''" by code_simp
  have "trace (run [Response ''constructor'' ([] :: unit response)] (initialize True (Some ''constructor'')))
     = [SetDisabled True, GetJSON ''/data?filial=constructor'', Uncaught TypeError]"
    by (simp add: run_Cons run_Nil step_def t initialize_def fetchAndRender_eq teardown_none
        page_loaded_def emit_def data_url_def u)
  with t show ?thesis by simp
qed

subsection \<open>The variable dataTable and the order of effects\<close>

lemma trace_fetchAndRender_some:
  assumes "dataTable s = Some i"
  shows "trace (fetchAndRender f s) =
           trace s @ [Destroy (inst_id i), EmptyBody, EmptyHead, SetDisabled True, GetJSON (data_url f)]"
  using assms by (simp add: fetchAndRender_eq teardown_some)

lemma dataTable_fetchAndRender: "dataTable (fetchAndRender f s) = dataTable s"
  by (cases "dataTable s") (simp_all add: fetchAndRender_eq teardown_some teardown_none)

lemma dataTable_render: "dataTable (render cols rows s) \<noteq> None"
  by (cases "attached s") (simp_all add: render_fresh render_attached)

lemma dataTable_step:
  assumes "dataTable s \<noteq> None"
  shows "dataTable (step e s) \<noteq> None"
proof (cases e)
  case (Change f)
  with assms show ?thesis by (simp add: step_def dataTable_fetchAndRender)
next
  case (Response f r)
  let ?s' = "s\<lparr>pending := remove1 f (pending s)\<rparr>"
  show ?thesis
  proof (cases "f \<in> set (pending s)")
    case False
    with Response assms show ?thesis by (simp add: step_def)
  next
    case True
    from on_response_outcomes [of f r ?s'] show ?thesis
    proof (elim disjE exE conjE)
      assume "on_response f r ?s' = Inl TypeError"
      with True Response assms show ?thesis by (simp add: step_def emit_def)
    next
      assume "on_response f r ?s' = Inr ?s'"
      with True Response assms show ?thesis by (simp add: step_def)
    next
      fix first rest
      assume "on_response f r ?s' = Inr (render (object_keys first) (first # rest) ?s')"
      with True Response show ?thesis by (simp add: step_def dataTable_render)
    qed
  qed
qed

lemma dataTable_run:
  assumes "dataTable s \<noteq> None"
  shows "dataTable (run es s) \<noteq> None"
  using assms
proof (induction es arbitrary: s)
  case Nil
  then show ?case by (simp add: run_Nil)
next
  case (Cons e es)
  from Cons.prems have "dataTable (step e s) \<noteq> None" by (rule dataTable_step)
  then have "dataTable (run es (step e s)) \<noteq> None" by (rule Cons.IH)
  then show ?case by (simp add: run_Cons)
qed

lemma on_response_zero_rows:
  assumes "js_length (rows_or_empty (get_prop r f)) = Some 0"
  shows "on_response f r s = Inr s"
  using assms by (simp add: on_response_def)

lemma step_response_zero_rows:
  assumes "js_length (rows_or_empty (get_prop r f)) = Some 0"
  shows "step (Response f r) s = (if f \<in> set (pending s) then s\<lparr>pending := remove1 f (pending s)\<rparr> else s)"
  using assms by (simp add: step_def on_response_zero_rows)

text \<open>
  Claim C10. Once the variable \<open>dataTable\<close> holds an instance, a selection answered by
  zero rows leaves it holding that same instance, which the selection has destroyed and
  which is no longer attached; the next selection calls \<open>destroy\<close> on it again; and after
  any further history every selection runs the teardown branch before it disables the
  button and issues its request.
\<close>

theorem handle_never_reset:
  assumes "dataTable (run es (initialize d f0)) = Some i"
    and "js_length (rows_or_empty (get_prop r f)) = Some 0"
  shows "dataTable (run (es @ [Change f, Response f r]) (initialize d f0)) = Some i \<and>
         attached (run (es @ [Change f, Response f r]) (initialize d f0)) = None \<and>
         Destroy (inst_id i) \<in> set (trace (run (es @ [Change f, Response f r]) (initialize d f0))) \<and>
         trace (step (Change f') (run (es @ [Change f, Response f r]) (initialize d f0)))
           = trace (run (es @ [Change f, Response f r]) (initialize d f0))
               @ [Destroy (inst_id i), EmptyBody, EmptyHead, SetDisabled True, GetJSON (data_url f')] \<and>
         (\<forall>es' f''. \<exists>j. trace (step (Change f'') (run (es @ es') (initialize d f0)))
           = trace (run (es @ es') (initialize d f0))
               @ [Destroy j, EmptyBody, EmptyHead, SetDisabled True, GetJSON (data_url f'')])"
proof -
  let ?s = "run es (initialize d f0)"
  let ?s1 = "fetchAndRender f ?s"
  let ?s2 = "run (es @ [Change f, Response f r]) (initialize d f0)"
  have inv: "page_inv ?s" by (rule page_inv_reachable)
  note c = change_clears [OF inv, of f]
  have e1: "step (Change f) ?s = ?s1" by (simp add: step_def)
  have s2: "?s2 = ?s1\<lparr>pending := remove1 f (pending ?s1)\<rparr>"
    unfolding reachable_cycle e1 step_response_zero_rows [OF assms(2)] using c by simp
  have d2: "dataTable ?s2 = Some i"
    by (simp add: s2 dataTable_fetchAndRender assms(1))
  have a2: "attached ?s2 = None"
    using c by (simp add: s2)
  have p2: "Destroy (inst_id i) \<in> set (trace ?s2)"
    by (simp add: s2 trace_fetchAndRender_some [OF assms(1)])
  have t2: "trace (step (Change f') ?s2)
           = trace ?s2 @ [Destroy (inst_id i), EmptyBody, EmptyHead, SetDisabled True, GetJSON (data_url f')]"
    using trace_fetchAndRender_some [OF d2] by (simp add: step_def)
  have later: "\<exists>j. trace (step (Change f'') (run (es @ es') (initialize d f0)))
           = trace (run (es @ es') (initialize d f0))
               @ [Destroy j, EmptyBody, EmptyHead, SetDisabled True, GetJSON (data_url f'')]" for es' f''
  proof -
    have "dataTable (run es' ?s) \<noteq> None"
      by (rule dataTable_run) (simp add: assms(1))
    then obtain k where "dataTable (run (es @ es') (initialize d f0)) = Some k"
      by (auto simp add: run_append)
    from trace_fetchAndRender_some [OF this] show ?thesis
      by (auto simp add: step_def)
  qed
  from d2 a2 p2 t2 later show ?thesis by blast
qed


text \<open>
  Claim C7. On every call of fetchAndRender, after any history: when a table is rendered,
  the effects of the call are, in this order, the destruction of its instance, the emptying
  of the body and of the header row, the disabling of the export button and only then the
  request; and in the state in which the request is issued no instance is attached, header
  row and body are empty and the button is disabled.
\<close>

theorem teardown_before_request:
  "(\<forall>i. attached (run es (initialize d f0)) = Some i \<longrightarrow>
      trace (fetchAndRender f (run es (initialize d f0)))
        = trace (run es (initialize d f0))
            @ [Destroy (inst_id i), EmptyBody, EmptyHead, SetDisabled True, GetJSON (data_url f)]) \<and>
   fetchAndRender f (run es (initialize d f0))
     = getJSON (data_url f) f (set_disabled True (teardown (run es (initialize d f0)))) \<and>
   attached (set_disabled True (teardown (run es (initialize d f0)))) = None \<and>
   thead (set_disabled True (teardown (run es (initialize d f0)))) = [] \<and>
   tbody (set_disabled True (teardown (run es (initialize d f0)))) = [] \<and>
   export_disabled (set_disabled True (teardown (run es (initialize d f0))))"
proof -
  let ?s = "run es (initialize d f0)"
  have inv: "page_inv ?s" by (rule page_inv_reachable)
  have order: "trace (fetchAndRender f ?s)
        = trace ?s @ [Destroy (inst_id i), EmptyBody, EmptyHead, SetDisabled True, GetJSON (data_url f)]"
    if "attached ?s = Some i" for i
  proof -
    from inv that have "dataTable ?s = Some i" by (simp add: page_inv_def)
    then show ?thesis by (rule trace_fetchAndRender_some)
  qed
  note c = change_clears [OF inv, of f]
  have before: "attached (set_disabled True (teardown ?s)) = attached (fetchAndRender f ?s)"
    "thead (set_disabled True (teardown ?s)) = thead (fetchAndRender f ?s)"
    "tbody (set_disabled True (teardown ?s)) = tbody (fetchAndRender f ?s)"
    "export_disabled (set_disabled True (teardown ?s)) = export_disabled (fetchAndRender f ?s)"
    by (simp_all add: fetchAndRender_def getJSON_def emit_def)
  from order c show ?thesis
    by (simp add: before fetchAndRender_def)
qed


subsection \<open>What is on screen after a selection and its answer\<close>


lemma step_not_rendering_keeps:
  assumes "\<not> (\<exists>first rest. get_prop r f = Own (first # rest))"
  shows "export_disabled (step (Response f r) s) = export_disabled s"
    and "dataTable (step (Response f r) s) = dataTable s"
proof -
  let ?s' = "s\<lparr>pending := remove1 f (pending s)\<rparr>"
  from on_response_not_rendering [OF assms, of ?s']
  have "export_disabled (step (Response f r) s) = export_disabled s \<and>
        dataTable (step (Response f r) s) = dataTable s"
  proof
    assume "on_response f r ?s' = Inl TypeError"
    then show ?thesis by (simp add: step_def emit_def)
  next
    assume "on_response f r ?s' = Inr ?s'"
    then show ?thesis by (simp add: step_def)
  qed
  then show "export_disabled (step (Response f r) s) = export_disabled s"
    and "dataTable (step (Response f r) s) = dataTable s" by blast+
qed




subsection \<open>The export button\<close>




lemma step_rendering:
  assumes "f \<in> set (pending s)" and "get_prop r f = Own (first # rest)"
  shows "step (Response f r) s
           = render (object_keys first) (first # rest) (s\<lparr>pending := remove1 f (pending s)\<rparr>)"
  using assms by (simp add: step_def on_response_rows)



subsection \<open>The scenario for East, step by step\<close>

lemma data_url_plain:
  "data_url ''East'' = ''/data?filial=East''"
  "data_url ''South'' = ''/data?filial=South''"
  "data_url ''West'' = ''/data?filial=West''"
  unfolding data_url_def by code_simp+

lemma loaded_east:
  "initialize True (Some ''East'') =
     \<lparr>dataTable = None, attached = None, created = 0, thead = [], tbody = [],
      export_disabled = True, pending = [''East''],
      trace = [SetDisabled True, GetJSON ''/data?filial=East'']\<rparr>"
  by (simp add: initialize_def page_loaded_def fetchAndRender_eq teardown_none data_url_plain)

lemma east_rendered:
  "run [Response ''East'' east] (initialize True (Some ''East'')) =
     \<lparr>dataTable = Some east_table, attached = Some east_table, created = 1,
      thead = [''<th></th>'', ''<th>id</th>'', ''<th>amount</th>''],
      tbody = data (settings east_table),
      export_disabled = False, pending = [],
      trace = [SetDisabled True, GetJSON ''/data?filial=East'', AppendHead ''<th></th>'',
               AppendHead ''<th>id</th>'', AppendHead ''<th>amount</th>'', DataTableCall,
               SetDisabled False]\<rparr>"
  unfolding run_Cons run_Nil loaded_east
  by (simp add: step_rendering [OF _ east_rows] render_fresh object_keys_def th_def east_table_def
      table_config_fields(1))




text \<open>The \<open>East\<close> table is on screen when \<open>South\<close> is selected.\<close>

theorem teardown_before_request_witness:
  "attached (run [Response ''East'' east] (initialize True (Some ''East''))) = Some east_table \<and>
   trace (fetchAndRender ''South'' (run [Response ''East'' east] (initialize True (Some ''East''))))
     = [SetDisabled True, GetJSON ''/data?filial=East'', AppendHead ''<th></th>'',
        AppendHead ''<th>id</th>'', AppendHead ''<th>amount</th>'', DataTableCall,
        SetDisabled False, Destroy 0, EmptyBody, EmptyHead, SetDisabled True,
        GetJSON ''/data?filial=South''] \<and>
   attached (set_disabled True (teardown (run [Response ''East'' east] (initialize True (Some ''East''))))) = None"
proof -
  have a: "attached (run [Response ''East'' east] (initialize True (Some ''East''))) = Some east_table"
    by (simp add: east_rendered)
  have t: "trace (run [Response ''East'' east] (initialize True (Some ''East'')))
     = [SetDisabled True, GetJSON ''/data?filial=East'', AppendHead ''<th></th>'',
        AppendHead ''<th>id</th>'', AppendHead ''<th>amount</th>'', DataTableCall,
        SetDisabled False]"
    by (simp add: east_rendered)
  have i: "inst_id east_table = 0" by (simp add: east_table_def)
  from teardown_before_request [of "[Response ''East'' east]" True "Some ''East''" "''South''"] a
  have "trace (fetchAndRender ''South'' (run [Response ''East'' east] (initialize True (Some ''East''))))
        = trace (run [Response ''East'' east] (initialize True (Some ''East'')))
            @ [Destroy (inst_id east_table), EmptyBody, EmptyHead, SetDisabled True,
               GetJSON (data_url ''South'')]"
    and "attached (set_disabled True (teardown (run [Response ''East'' east]
           (initialize True (Some ''East'') :: unit state)))) = None"
    by blast+
  with a show ?thesis by (simp add: t i data_url_plain)
qed


text \<open>
  \<open>East\<close> is rendered, \<open>South\<close> has no rows, then \<open>West\<close> is selected: the
  instance 0 is destroyed a second time.
\<close>

theorem handle_never_reset_witness:
  "dataTable (run [Response ''East'' east] (initialize True (Some ''East''))) = Some east_table \<and>
   js_length (rows_or_empty (get_prop south_empty ''South'')) = Some 0 \<and>
   dataTable (run ([Response ''East'' east] @ [Change ''South'', Response ''South'' south_empty])
      (initialize True (Some ''East''))) = Some east_table \<and>
   attached (run ([Response ''East'' east] @ [Change ''South'', Response ''South'' south_empty])
      (initialize True (Some ''East''))) = None \<and>
   trace (step (Change ''West'') (run ([Response ''East'' east] @ [Change ''South'', Response ''South'' south_empty])
      (initialize True (Some ''East''))))
     = trace (run ([Response ''East'' east] @ [Change ''South'', Response ''South'' south_empty])
         (initialize True (Some ''East'')))
       @ [Destroy 0, EmptyBody, EmptyHead, SetDisabled True, GetJSON ''/data?filial=West'']"
proof -
  have d: "dataTable (run [Response ''East'' east] (initialize True (Some ''East''))) = Some east_table"
    by (simp add: east_rendered)
  have z: "js_length (rows_or_empty (get_prop south_empty ''South'')) = Some 0"
    by (simp add: south_empty_def get_prop_def rows_or_empty_def js_length_def)
  have i: "inst_id east_table = 0" by (simp add: east_table_def)
  from handle_never_reset [OF d z, of "''West''"] d z show ?thesis
    by (simp add: i data_url_plain)
qed

end
